theory Spec2Isabelle
  imports Main "HOL-Library.Word" "HOL-Library.Sublist"
begin

section \<open>JavaScript values\<close>

text \<open>
  A JavaScript string is a sequence of UTF-16 code units. String constants of the
  source are written \<open>js ''...''\<close>.
\<close>

type_synonym jschar = "16 word"
type_synonym jsstring = "jschar list"

definition js :: "string \<Rightarrow> jsstring" where
  "js s = map of_char s"

text \<open>
  The values that reach the library: what a YAML/JSON parser produces, and what a caller
  passes as render data. An object is the list of its own enumerable properties in
  insertion order. \<open>JSelf\<close> stands for the reference \<open>data.$ = data\<close> that
  \<open>methods.locals\<close> stores in a context (the object graph is cyclic there).
  Numbers are integers, of a size that JavaScript prints in decimal notation.
\<close>

datatype jsval =
    JUndefined
  | JNull
  | JBool bool
  | JNum int
  | JStr jsstring
  | JArr "jsval list"
  | JObj "(jsstring \<times> jsval) list"
  | JSelf

type_synonym props = "(jsstring \<times> jsval) list"

text \<open>Everything the source throws, as a value.\<close>

datatype error =
    ValidationError
  | DuplicateMeta jsstring
  | CompileError jsstring
  | EchoError
  | SyntaxError
  | TypeError
  | Thrown jsval
  | Unmodelled

text \<open>ToBoolean.\<close>

fun truthy :: "jsval \<Rightarrow> bool" where
  "truthy JUndefined = False"
| "truthy JNull = False"
| "truthy (JBool b) = b"
| "truthy (JNum n) = (n \<noteq> 0)"
| "truthy (JStr s) = (s \<noteq> [])"
| "truthy (JArr _) = True"
| "truthy (JObj _) = True"
| "truthy JSelf = True"

text \<open>\<open>typeof v === 'string'\<close>.\<close>

fun isString :: "jsval \<Rightarrow> bool" where
  "isString (JStr _) = True"
| "isString _ = False"

text \<open>lodash \<open>_.isObject\<close>: true of objects and arrays, false of primitives.\<close>

fun isObject :: "jsval \<Rightarrow> bool" where
  "isObject (JArr _) = True"
| "isObject (JObj _) = True"
| "isObject JSelf = True"
| "isObject _ = False"

text \<open>
  Property read \<open>v[k]\<close> and write \<open>o[k] = x\<close>. A read of a missing key is
  \<open>undefined\<close>; a write replaces the value in place or appends the key. The built-in
  properties of strings and arrays (\<open>length\<close>, indices) are not properties here.
\<close>

definition lookup :: "props \<Rightarrow> jsstring \<Rightarrow> jsval" where
  "lookup ps k = (case map_of ps k of Some v \<Rightarrow> v | None \<Rightarrow> JUndefined)"

fun getProp :: "jsval \<Rightarrow> jsstring \<Rightarrow> jsval" where
  "getProp (JObj ps) k = lookup ps k"
| "getProp _ k = JUndefined"

fun setKey :: "'k \<Rightarrow> 'v \<Rightarrow> ('k \<times> 'v) list \<Rightarrow> ('k \<times> 'v) list" where
  "setKey k v [] = [(k, v)]"
| "setKey k v (p # ps) = (if fst p = k then (k, v) # ps else p # setKey k v ps)"

text \<open>\<open>Object.assign\<close> / \<open>_.assign\<close> of the own properties \<open>src\<close> onto \<open>dst\<close>.\<close>

definition assign :: "props \<Rightarrow> props \<Rightarrow> props" where
  "assign dst src = foldl (\<lambda>acc p. setKey (fst p) (snd p) acc) dst src"

text \<open>
  The own enumerable properties of a value that is the source of an \<open>assign\<close>: a
  source that is not an object contributes no property.
\<close>

fun ownProps :: "jsval \<Rightarrow> props" where
  "ownProps (JObj ps) = ps"
| "ownProps _ = []"

section \<open>Node's \<open>path\<close> module (POSIX)\<close>

text \<open>
  \<open>path.dirname\<close>, \<open>basename\<close>, \<open>extname\<close>, \<open>normalize\<close>, \<open>join\<close>,
  \<open>resolve\<close> and \<open>relative\<close> belong to the Node.js runtime, not to this repository;
  they are written here after Node's POSIX implementation. \<open>normalize\<close>,
  \<open>resolve\<close> and \<open>relative\<close> are stated on path segments, which is what Node's
  character loops compute.
\<close>

definition slash :: jschar where
  "slash = 0x2F"

definition dot :: jschar where
  "dot = 0x2E"

text \<open>
  \<open>dirname\<close>: scanning from the end (index 0 excluded), skip trailing slashes, skip the
  last segment, and cut at the slash before it.
\<close>

definition dirname :: "jsstring \<Rightarrow> jsstring" where
  "dirname path =
     (case path of
        [] \<Rightarrow> js ''.''
      | c # rest \<Rightarrow>
          (let r = dropWhile (\<lambda>x. x \<noteq> slash) (dropWhile (\<lambda>x. x = slash) (rev rest))
           in if r = [] then (if c = slash then js ''/'' else js ''.'')
              else if c = slash \<and> length r = 1 then js ''//''
              else c # rev (tl r)))"

text \<open>\<open>basename\<close> (one argument): the last segment, trailing slashes ignored.\<close>

definition basename :: "jsstring \<Rightarrow> jsstring" where
  "basename path = rev (takeWhile (\<lambda>x. x \<noteq> slash) (dropWhile (\<lambda>x. x = slash) (rev path)))"

text \<open>
  \<open>extname\<close>, which is also \<open>path.parse(p).ext\<close>: from the last dot of the basename,
  unless that dot is the basename's first character or the basename is \<open>..\<close>.
\<close>

definition extname :: "jsstring \<Rightarrow> jsstring" where
  "extname path =
     (let b = basename path;
          ext = rev (takeWhile (\<lambda>x. x \<noteq> dot) (rev b))
      in if dot \<notin> set b \<or> length ext + 1 = length b \<or> b = js ''..'' then []
         else dot # ext)"

fun splitOn :: "'a \<Rightarrow> 'a list \<Rightarrow> 'a list list" where
  "splitOn c [] = [[]]"
| "splitOn c (x # xs) =
     (if x = c then [] # splitOn c xs
      else (case splitOn c xs of [] \<Rightarrow> [[x]] | s # ss \<Rightarrow> (x # s) # ss))"

fun joinWith :: "'a list \<Rightarrow> 'a list list \<Rightarrow> 'a list" where
  "joinWith sep [] = []"
| "joinWith sep [s] = s"
| "joinWith sep (s # t # ss) = s @ sep @ joinWith sep (t # ss)"

text \<open>
  One step of \<open>normalizeString\<close> on a segment, the segments kept so far in reverse:
  empty and \<open>.\<close> segments vanish, \<open>..\<close> removes the last kept segment, and where there
  is none to remove it is kept only if \<open>allowAboveRoot\<close>.
\<close>

definition normStep :: "bool \<Rightarrow> jsstring list \<Rightarrow> jsstring \<Rightarrow> jsstring list" where
  "normStep allowAboveRoot acc seg =
     (if seg = [] \<or> seg = js ''.'' then acc
      else if seg = js ''..'' then
        (case acc of
           [] \<Rightarrow> (if allowAboveRoot then [js ''..''] else [])
         | seg0 # below \<Rightarrow>
             (if seg0 \<noteq> js ''..'' then below
              else if allowAboveRoot then js ''..'' # acc else acc))
      else seg # acc)"

definition normalizeSegs :: "bool \<Rightarrow> jsstring list \<Rightarrow> jsstring list" where
  "normalizeSegs allowAboveRoot segs = rev (foldl (normStep allowAboveRoot) [] segs)"

definition normalize :: "jsstring \<Rightarrow> jsstring" where
  "normalize path =
     (if path = [] then js ''.''
      else
        (let isAbsolute = (hd path = slash);
             trailingSeparator = (last path = slash);
             p = joinWith [slash] (normalizeSegs (\<not> isAbsolute) (splitOn slash path))
         in if p = [] then (if isAbsolute then js ''/'' else if trailingSeparator then js ''./'' else js ''.'')
            else (if isAbsolute then [slash] else []) @ p @ (if trailingSeparator then [slash] else [])))"

text \<open>\<open>path.join(a, b)\<close>: the non-empty arguments joined with a slash, normalized.\<close>

definition join :: "jsstring \<Rightarrow> jsstring \<Rightarrow> jsstring" where
  "join a b =
     (if a = [] \<and> b = [] then js ''.''
      else if a = [] then normalize b
      else if b = [] then normalize a
      else normalize (a @ [slash] @ b))"

text \<open>
  \<open>path.resolve(p)\<close> as the segments of the absolute path; \<open>cwd\<close> is
  \<open>process.cwd()\<close>, an absolute path.
\<close>

definition resolveSegs :: "jsstring \<Rightarrow> jsstring \<Rightarrow> jsstring list" where
  "resolveSegs cwd p =
     (if p \<noteq> [] \<and> hd p = slash then normalizeSegs False (splitOn slash p)
      else normalizeSegs False (splitOn slash cwd @ splitOn slash p))"

text \<open>
  \<open>path.relative(from, to)\<close>: one \<open>..\<close> for each segment of \<open>from\<close> below the
  common ancestor, then the segments of \<open>to\<close> below it.
\<close>

definition relative :: "jsstring \<Rightarrow> jsstring \<Rightarrow> jsstring \<Rightarrow> jsstring" where
  "relative cwd from to =
     (if from = to then []
      else
        (let f = resolveSegs cwd from;
             t = resolveSegs cwd to;
             n = length (longest_common_prefix f t)
         in joinWith [slash] (replicate (length f - n) (js ''..'') @ drop n t)))"

section \<open>The registries (src/index.ts)\<close>

text \<open>
  A compiled template is a function of the render context: it returns its output and the
  context as it left it (templates call helpers that write to the context), or throws.
  \<open>templates\<close> and \<open>meta\<close> are \<open>Hash\<close> objects, maps without inherited keys, kept in
  insertion order. \<open>rename\<close> is the optional hook of the options; it returns a string or
  nothing.
\<close>

type_synonym template = "props \<Rightarrow> error + jsval \<times> props"

record statil =
  templates :: "(jsstring \<times> template) list"
  meta :: props
  rename :: "(jsstring \<Rightarrow> jsstring option) option"

text \<open>
  \<open>metaAtPath(path)\<close>: the argument is typed \<open>string\<close>, so \<open>validateString\<close> passes.
  \<open>path.slice(-1)\<close> of the empty string is the empty string.
\<close>

definition metaDir :: "jsstring \<Rightarrow> jsstring" where
  "metaDir path = (if path \<noteq> [] \<and> last path = slash then butlast path else dirname path)"

definition metaAtPath :: "statil \<Rightarrow> jsstring \<Rightarrow> jsval" where
  "metaAtPath st path = lookup (meta st) (metaDir path)"

section \<open>External collaborators\<close>

text \<open>
  What the library takes from outside is a parameter of the model: \<open>cwd\<close> is
  \<open>process.cwd()\<close>; \<open>safeLoad\<close> is js-yaml's parser; \<open>lodashTemplate\<close> is lodash's
  \<open>_.template\<close> as \<open>register\<close> calls it; \<open>reMatch pattern s\<close> is
  \<open>!!s.match(pattern)\<close> for a string pattern, which throws on a malformed pattern.
  \<open>stripExt\<close> and \<open>split\<close> are the functions of \<open>lib/statics\<close> that remove a file
  extension and list the paths to render from the root template down to the given one.
\<close>

record env =
  cwd :: jsstring
  safeLoad :: "jsstring \<Rightarrow> error + jsval"
  lodashTemplate :: "jsstring \<Rightarrow> error + template"
  reMatch :: "jsstring \<Rightarrow> jsstring \<Rightarrow> error + bool"
  stripExt :: "jsstring \<Rightarrow> jsstring"
  split :: "jsstring \<Rightarrow> jsstring list"

text \<open>
  Modelled from the spec: \<open>statics.validateTruthyString\<close> is missing. Section 7 has an
  empty string where a non-empty one is required fail with a validation error. The
  argument is a string by its type here.
\<close>

definition validateTruthyString :: "jsstring \<Rightarrow> error + unit" where
  "validateTruthyString s = (if s = [] then Inl ValidationError else Inr ())"

text \<open>
  Modelled from the spec: \<open>statics.validateWritable\<close> is missing. Section 7 has a
  non-object where a mutable context is required fail with a validation error.
\<close>

definition validateWritable :: "jsval \<Rightarrow> error + unit" where
  "validateWritable data = (if isObject data then Inr () else Inl ValidationError)"

text \<open>
  Modelled from the spec: the constructor \<open>statics.Hash\<close> is missing. Section 9 calls it
  a map type without inherited properties; \<open>new Hash(x)\<close> is taken to copy the own
  properties of an object and to be empty for anything else.
\<close>

fun Hash :: "jsval \<Rightarrow> props" where
  "Hash (JObj ps) = assign [] ps"
| "Hash _ = []"

text \<open>
  Modelled from the spec: \<open>statics.transclude\<close> is missing. Section 4.2 describes it as
  the passthrough renderer whose output is the current \<open>$content\<close>.
\<close>

definition transclude :: template where
  "transclude data = Inr (lookup data (js ''$content''), data)"

text \<open>
  Modelled from the spec: \<open>statics.echoLegend\<close> is missing. Section 4.3 requires
  \<open>legend.echo\<close> to name a sequence inside the metadata and fails if the group is
  missing, is not a sequence, or has an element without a name; the result is the
  sequence of the group's elements.
\<close>

fun hasName :: "jsval \<Rightarrow> bool" where
  "hasName (JObj ps) = (isString (lookup ps (js ''name'')) \<and> truthy (lookup ps (js ''name'')))"
| "hasName _ = False"

definition echoLegend :: "jsval \<Rightarrow> jsval \<Rightarrow> error + jsval list" where
  "echoLegend metadata legend =
     (case getProp legend (js ''echo'') of
        JStr g \<Rightarrow>
          (case getProp metadata g of
             JArr elements \<Rightarrow> (if list_all hasName elements then Inr elements else Inl EchoError)
           | _ \<Rightarrow> Inl EchoError)
      | _ \<Rightarrow> Inl EchoError)"

text \<open>
  \<open>fileLegend(path)\<close>: \<open>_.find(meta.files, {name: basename(path)})\<close>. lodash looks
  through the elements of an array or the values of an object and returns the first one
  that is an object whose \<open>name\<close> is the given string, or \<open>undefined\<close>.
\<close>

fun matchesName :: "jsstring \<Rightarrow> jsval \<Rightarrow> bool" where
  "matchesName b (JObj ps) = (lookup ps (js ''name'') = JStr b)"
| "matchesName b _ = False"

fun findByName :: "jsval \<Rightarrow> jsstring \<Rightarrow> jsval" where
  "findByName (JArr xs) b = (case List.find (matchesName b) xs of Some x \<Rightarrow> x | None \<Rightarrow> JUndefined)"
| "findByName (JObj ps) b =
     (case List.find (matchesName b) (map snd ps) of Some x \<Rightarrow> x | None \<Rightarrow> JUndefined)"
| "findByName _ b = JUndefined"

definition fileLegend :: "statil \<Rightarrow> jsstring \<Rightarrow> jsval" where
  "fileLegend st path =
     (let m = metaAtPath st path
      in if truthy m then findByName (getProp m (js ''files'')) (basename path) else JUndefined)"

text \<open>
  \<open>register(source, path)\<close>. Both arguments are typed \<open>string\<close>. A compilation
  failure is rethrown with the path in its message.
\<close>

definition register :: "env \<Rightarrow> statil \<Rightarrow> jsstring \<Rightarrow> jsstring \<Rightarrow> error + statil" where
  "register e st source path =
     (case validateTruthyString path of
        Inl err \<Rightarrow> Inl err
      | Inr _ \<Rightarrow>
          (let rel = relative (cwd e) (cwd e) path
           in if extname rel = js ''.yaml'' \<or> extname rel = js ''.json'' then
                (let dir = dirname rel
                 in if truthy (lookup (meta st) dir) then Inl (DuplicateMeta dir)
                    else (case safeLoad e source of
                            Inl err \<Rightarrow> Inl err
                          | Inr m \<Rightarrow> Inr (st\<lparr>meta := setKey dir m (meta st)\<rparr>)))
              else
                (let key = stripExt e rel
                 in case lodashTemplate e source of
                      Inl err \<Rightarrow> Inl (CompileError key)
                    | Inr t \<Rightarrow> Inr (st\<lparr>templates := setKey key t (templates st)\<rparr>))))"

text \<open>The instance the constructor leaves: both registries empty.\<close>

definition newStatil :: "(jsstring \<Rightarrow> jsstring option) option \<Rightarrow> statil" where
  "newStatil r = \<lparr>templates = [], meta = [], rename = r\<rparr>"

text \<open>The instances that \<open>register\<close> can build from a new one.\<close>

inductive registered :: "env \<Rightarrow> statil \<Rightarrow> bool" for e :: env where
  new: "registered e (newStatil r)"
| reg: "registered e st \<Longrightarrow> register e st source path = Inr st' \<Longrightarrow> registered e st'"

section \<open>Template helpers (lib/methods.js)\<close>

subsection \<open>\<open>$entitle\<close>\<close>

text \<open>
  \<open>methods.$entitle(title, data)\<close> mutates \<open>data\<close> and returns nothing; the model
  returns the data after the call. An array has no place for a named property in this
  model, so a title written to an array is outside it: the array is returned as it is.
\<close>

fun entitle :: "jsval \<Rightarrow> jsval \<Rightarrow> jsval" where
  "entitle title (JObj ps) =
     (if \<not> isString title \<or> \<not> truthy title then JObj ps
      else if \<not> isString (lookup ps (js ''$title'')) \<or> \<not> truthy (lookup ps (js ''$title''))
        then JObj (setKey (js ''$title'') title ps)
      else (case (title, lookup ps (js ''$title'')) of
              (JStr t, JStr old) \<Rightarrow> JObj (setKey (js ''$title'') (JStr (t @ js '' | '' @ old)) ps)
            | _ \<Rightarrow> JObj ps))"
| "entitle title data = data"

subsection \<open>\<open>$active\<close>\<close>

text \<open>
  \<open>methods.$active(path, data)\<close>; \<open>relative[0]\<close> of the empty string is
  \<open>undefined\<close>. \<open>path.relative\<close> resolves both paths against \<open>process.cwd()\<close>.
\<close>

definition active :: "env \<Rightarrow> jsval \<Rightarrow> jsval \<Rightarrow> jsstring" where
  "active e path data =
     (if \<not> isObject data then []
      else case path of
        JStr p \<Rightarrow>
          (case getProp data (js ''$path'') of
             JStr dp \<Rightarrow>
               (let rel = relative (cwd e) p dp
                in if rel = [] \<or> hd rel \<noteq> dot then js ''active'' else [])
           | _ \<Rightarrow> [])
      | _ \<Rightarrow> [])"

text \<open>\<open>methods.$act(path, data)\<close>.\<close>

definition act :: "env \<Rightarrow> jsval \<Rightarrow> jsval \<Rightarrow> jsstring" where
  "act e path data = (if active e path data \<noteq> [] then js ''class=\"active\"'' else [])"

definition titleOf :: "jsval \<Rightarrow> jsval" where
  "titleOf d = getProp d (js ''$title'')"

subsection \<open>Rendering\<close>

text \<open>
  \<open>methods.locals(path, data)\<close> writes the default locals into \<open>data\<close>; the model
  returns the context after the call. The pipeline below hands it objects only; an array
  as a context is outside the model (\<open>Unmodelled\<close>).
\<close>

definition defaults :: "statil \<Rightarrow> jsstring \<Rightarrow> props \<Rightarrow> props" where
  "defaults st path d0 =
     (let d1 = (if \<not> isString (lookup d0 (js ''$content'')) then setKey (js ''$content'') (JStr []) d0 else d0);
          d2 = (if \<not> isString (lookup d1 (js ''$title'')) then setKey (js ''$title'') (JStr []) d1 else d1);
          d3 = setKey (js ''$'') JSelf d2;
          m = metaAtPath st path;
          d4 = (if truthy m then setKey (js ''$meta'') m d3 else d3);
          legend = fileLegend st path
      in if truthy legend then assign d4 (ownProps legend) else d4)"

definition locals :: "statil \<Rightarrow> jsstring \<Rightarrow> jsval \<Rightarrow> error + props" where
  "locals st path data =
     (case validateWritable data of
        Inl err \<Rightarrow> Inl err
      | Inr _ \<Rightarrow> (case data of JObj d \<Rightarrow> Inr (defaults st path d) | _ \<Rightarrow> Inl Unmodelled))"

text \<open>
  \<open>methods.renderOne(path, data)\<close>: the result of the template and the context as the
  call leaves it. The \<open>catch\<close> logs the path and rethrows the same error.
\<close>

definition renderOne :: "env \<Rightarrow> statil \<Rightarrow> jsstring \<Rightarrow> jsval \<Rightarrow> error + jsval \<times> props" where
  "renderOne e st path data =
     (case validateTruthyString path of
        Inl err \<Rightarrow> Inl err
      | Inr _ \<Rightarrow>
          (let template = (case map_of (templates st) (stripExt e path) of
                             Some t \<Rightarrow> t | None \<Rightarrow> transclude);
               data' = (if \<not> isObject data then JObj (Hash JUndefined) else data)
           in case locals st path data' of
                Inl err \<Rightarrow> Inl err
              | Inr d \<Rightarrow> template d))"

text \<open>
  The loop of \<open>methods.renderThrough\<close>, \<open>_.eachRight\<close> over the paths of
  \<open>statics.split\<close>: the paths are given here in the order of the visits, leaf first.
\<close>

fun renderEachRight :: "env \<Rightarrow> statil \<Rightarrow> jsstring list \<Rightarrow> props \<Rightarrow> error + props" where
  "renderEachRight e st [] d = Inr d"
| "renderEachRight e st (p # ps) d =
     (case renderOne e st p (JObj d) of
        Inl err \<Rightarrow> Inl err
      | Inr (result, d') \<Rightarrow> renderEachRight e st ps (setKey (js ''$content'') result d'))"

definition renderThrough :: "env \<Rightarrow> statil \<Rightarrow> jsstring \<Rightarrow> jsval \<Rightarrow> error + jsval \<times> props" where
  "renderThrough e st path data =
     (case validateTruthyString path of
        Inl err \<Rightarrow> Inl err
      | Inr _ \<Rightarrow>
          (case (if \<not> isObject data then JObj (Hash JUndefined) else data) of
             JObj d \<Rightarrow>
               (case renderEachRight e st (rev (split e path)) d of
                  Inl err \<Rightarrow> Inl err
                | Inr d' \<Rightarrow> Inr (lookup d' (js ''$content''), d'))
           | _ \<Rightarrow> Inl Unmodelled))"

text \<open>
  \<open>methods.renderTemplate(path, data)\<close>. \<open>echoDatas\<close> is the first half, up to the
  list \<open>datas\<close> of contexts; \<open>_.omit(legend)\<close> copies the properties of an echo element.
\<close>

definition echoDatas :: "statil \<Rightarrow> jsstring \<Rightarrow> jsval \<Rightarrow> error + props list" where
  "echoDatas st path data0 =
     (let legend = fileLegend st path;
          data = setKey (js ''name'') (JStr (basename path)) (assign (Hash data0) (ownProps legend))
      in if truthy legend \<and> truthy (getProp legend (js ''echo'')) then
           (case echoLegend (metaAtPath st path) legend of
              Inl err \<Rightarrow> Inl err
            | Inr legends \<Rightarrow> Inr (map (\<lambda>l. assign (Hash (JObj data)) (ownProps l)) legends))
         else Inr [data])"

text \<open>
  The body of the \<open>_.each\<close> loop: \<open>withPath\<close> is the context with its \<open>$path\<close>, as
  \<open>renderThrough\<close> receives it; \<open>path.join\<close> throws a \<open>TypeError\<close> for a name that
  is not a string.
\<close>

definition withPath :: "jsstring \<Rightarrow> props \<Rightarrow> error + jsstring \<times> props" where
  "withPath path data =
     (case lookup data (js ''name'') of
        JStr n \<Rightarrow>
          (let echoPath = join (dirname path) n
           in Inr (echoPath, setKey (js ''$path'') (JStr echoPath) data))
      | _ \<Rightarrow> Inl TypeError)"

definition renamed :: "statil \<Rightarrow> jsstring \<Rightarrow> jsstring" where
  "renamed st echoPath =
     (case rename st of
        None \<Rightarrow> echoPath
      | Some f \<Rightarrow> (case f echoPath of None \<Rightarrow> echoPath | Some p \<Rightarrow> (if p = [] then echoPath else p)))"

fun renderEach :: "env \<Rightarrow> statil \<Rightarrow> jsstring \<Rightarrow> props list \<Rightarrow> props \<Rightarrow> error + props" where
  "renderEach e st path [] buffer = Inr buffer"
| "renderEach e st path (data # datas) buffer =
     (case withPath path data of
        Inl err \<Rightarrow> Inl err
      | Inr (echoPath, data') \<Rightarrow>
          (case renderThrough e st path (JObj data') of
             Inl err \<Rightarrow> Inl err
           | Inr (result, _) \<Rightarrow>
               renderEach e st path datas (setKey (renamed st echoPath) result buffer)))"

definition renderTemplate :: "env \<Rightarrow> statil \<Rightarrow> jsstring \<Rightarrow> jsval \<Rightarrow> error + props" where
  "renderTemplate e st path data =
     (case echoDatas st path data of
        Inl err \<Rightarrow> Inl err
      | Inr datas \<Rightarrow> renderEach e st path datas [])"

text \<open>
  \<open>methods.isIgnored(path)\<close>; \<open>validateTruthyString\<close> rejects an \<open>ignore\<close> that is
  truthy and not a string.
\<close>

definition isIgnored :: "env \<Rightarrow> statil \<Rightarrow> jsstring \<Rightarrow> error + bool" where
  "isIgnored e st path =
     (let m = metaAtPath st path
      in if \<not> truthy m \<or> \<not> truthy (getProp m (js ''ignore'')) then Inr False
         else (case getProp m (js ''ignore'') of
                 JStr pattern \<Rightarrow> reMatch e pattern (basename path)
               | _ \<Rightarrow> Inl ValidationError))"

subsection \<open>\<open>render\<close> (src/index.ts)\<close>

text \<open>
  The loop \<open>for (const path in this.templates)\<close> of \<open>render(data)\<close>, over the
  registered paths in the order of the enumeration, and \<open>render\<close> itself. The
  enumeration is taken in the order of registration, which is the order of JavaScript
  for keys that are not array indices.
\<close>

fun renderPaths :: "env \<Rightarrow> statil \<Rightarrow> jsval \<Rightarrow> jsstring list \<Rightarrow> props \<Rightarrow> error + props" where
  "renderPaths e st data [] buffer = Inr buffer"
| "renderPaths e st data (path # paths) buffer =
     (case isIgnored e st path of
        Inl err \<Rightarrow> Inl err
      | Inr True \<Rightarrow> renderPaths e st data paths buffer
      | Inr False \<Rightarrow>
          (case renderTemplate e st path data of
             Inl err \<Rightarrow> Inl err
           | Inr b \<Rightarrow> renderPaths e st data paths (assign buffer b)))"

definition render :: "env \<Rightarrow> statil \<Rightarrow> jsval \<Rightarrow> error + props" where
  "render e st data = renderPaths e st data (map fst (templates st)) []"

subsection \<open>Auxiliary notions\<close>

text \<open>A path segment that can begin a relative path: not empty, not beginning with a slash.\<close>

definition relSeg :: "jsstring \<Rightarrow> bool" where
  "relSeg s = (s \<noteq> [] \<and> hd s \<noteq> slash)"

text \<open>Every key of the metadata registry is a relative path.\<close>

definition relativeKeys :: "statil \<Rightarrow> bool" where
  "relativeKeys st = (\<forall>k \<in> fst ` set (meta st). k \<noteq> [] \<and> hd k \<noteq> slash)"



text \<open>
  An environment and a site for the examples. js-yaml's \<open>safeLoad\<close> returns
  \<open>undefined\<close> for an empty document; any other document stands for a metadata object
  here. A template stands for its source followed by the transcluded \<open>$content\<close>. The
  chain of \<open>demoEnv\<close> is the root template and the leaf; that of \<open>demoChain\<close> has
  the template \<open>index\<close> of the leaf's directory between them.
\<close>

definition demoTemplate :: "jsstring \<Rightarrow> template" where
  "demoTemplate s d = Inr (JStr (s @ (case lookup d (js ''$content'') of JStr c \<Rightarrow> c | _ \<Rightarrow> [])), d)"

definition demoEnv :: env where
  "demoEnv = \<lparr>cwd = js ''/site'',
     safeLoad = (\<lambda>s. if s = [] then Inr JUndefined else Inr (JObj [(js ''ignore'', JStr s)])),
     lodashTemplate = (\<lambda>s. Inr (demoTemplate s)),
     reMatch = (\<lambda>p s. Inr (p = s)),
     stripExt = (\<lambda>p. take (length p - length (extname p)) p),
     split = (\<lambda>p. if p = js ''index'' then [p] else [js ''index'', p])\<rparr>"

definition demoChain :: env where
  "demoChain = demoEnv\<lparr>split := (\<lambda>p. [js ''index'', join (dirname p) (js ''index''), p])\<rparr>"

definition demoSite :: statil where
  "demoSite = \<lparr>templates = [(js ''index'', demoTemplate (js ''<html>'')),
                               (js ''blog/post'', demoTemplate (js ''post'')),
                               (js ''blog/draft'', demoTemplate (js ''draft''))],
      meta = [(js ''blog'', JObj [(js ''ignore'', JStr (js ''draft''))])],
      rename = None\<rparr>"




section \<open>The template compiler (lib/template.js)\<close>

subsection \<open>The delimiter patterns\<close>

text \<open>
  The class \<open>\s\<close> of a JavaScript regular expression: white space and line
  terminators.
\<close>

definition isSpace :: "jschar \<Rightarrow> bool" where
  "isSpace c = (c \<in> {0x09, 0x0A, 0x0B, 0x0C, 0x0D, 0x20, 0xA0, 0x1680, 0x2028, 0x2029,
                      0x202F, 0x205F, 0x3000, 0xFEFF} \<or> (0x2000 \<le> c \<and> c \<le> 0x200A))"

text \<open>
  The default \<open>reExpression\<close> and \<open>reStatement\<close> are an opening mark, \<open>\s*\<close>, the
  group \<open>([\s\S]+?)\<close>, \<open>\s*\<close> and a closing mark. The functions follow the
  backtracking matcher from a position of the input: a greedy \<open>\s*\<close> first tries to take
  one more character, the lazy group first tries to stop. A match returns the group and
  the input after the match.
\<close>

definition literalAt :: "jsstring \<Rightarrow> jsstring \<Rightarrow> jsstring option" where
  "literalAt cl s = (if prefix cl s then Some (drop (length cl) s) else None)"

fun trailingWs :: "jsstring \<Rightarrow> jsstring \<Rightarrow> jsstring option" where
  "trailingWs cl [] = literalAt cl []"
| "trailingWs cl (c # s) =
     (if isSpace c then (case trailingWs cl s of Some r \<Rightarrow> Some r | None \<Rightarrow> literalAt cl (c # s))
      else literalAt cl (c # s))"

fun lazyGroup :: "jsstring \<Rightarrow> jsstring \<Rightarrow> (jsstring \<times> jsstring) option" where
  "lazyGroup cl [] = None"
| "lazyGroup cl (c # s) =
     (case trailingWs cl s of
        Some r \<Rightarrow> Some ([c], r)
      | None \<Rightarrow> (case lazyGroup cl s of Some (g, r) \<Rightarrow> Some (c # g, r) | None \<Rightarrow> None))"

fun leadingWs :: "jsstring \<Rightarrow> jsstring \<Rightarrow> (jsstring \<times> jsstring) option" where
  "leadingWs cl [] = lazyGroup cl []"
| "leadingWs cl (c # s) =
     (if isSpace c then (case leadingWs cl s of Some m \<Rightarrow> Some m | None \<Rightarrow> lazyGroup cl (c # s))
      else lazyGroup cl (c # s))"

definition matchDelimiter :: "jsstring \<Rightarrow> jsstring \<Rightarrow> jsstring \<Rightarrow> (jsstring \<times> jsstring) option" where
  "matchDelimiter opn cl s = (if prefix opn s then leadingWs cl (drop (length opn) s) else None)"

definition reExpression :: "jsstring \<Rightarrow> (jsstring \<times> jsstring) option" where
  "reExpression = matchDelimiter (js ''{{'') (js ''}}'')"

definition reStatement :: "jsstring \<Rightarrow> (jsstring \<times> jsstring) option" where
  "reStatement = matchDelimiter (js ''<<'') (js ''>>'')"

subsection \<open>Escaping\<close>

text \<open>\<open>reSpecialChars\<close>, \<open>specialEscapes\<close> and \<open>escapeSpecialChar\<close>.\<close>

definition reSpecialChars :: "jschar set" where
  "reSpecialChars = {0x27, 0x0A, 0x0D, 0x2028, 0x2029, 0x5C}"

definition specialEscapes :: "(jschar \<times> jsstring) list" where
  "specialEscapes =
     [(0x5C, [0x5C]), (0x27, [0x27]), (0x0A, js ''n''), (0x0D, js ''r''),
      (0x2028, js ''u2028''), (0x2029, js ''u2029'')]"

definition escapeSpecialChar :: "jschar \<Rightarrow> jsstring" where
  "escapeSpecialChar c =
     (case map_of specialEscapes c of
        Some e \<Rightarrow> (if e \<noteq> [] then 0x5C # e else [c])
      | None \<Rightarrow> [c])"

text \<open>\<open>.replace(reSpecialChars, escapeSpecialChar)\<close>.\<close>

definition escapeContent :: "jsstring \<Rightarrow> jsstring" where
  "escapeContent s = concat (map (\<lambda>c. if c \<in> reSpecialChars then escapeSpecialChar c else [c]) s)"

subsection \<open>Compilation\<close>

text \<open>
  The lines that the callback of \<open>string.replace(reDelimiters, ...)\<close> adds to
  \<open>codeBody\<close>: \<open>__append('content')\<close>, a statement, \<open>__append(expression)\<close>.
\<close>

datatype instr =
    AppendContent jsstring
  | Statement jsstring
  | AppendExpression jsstring

definition emitContent :: "jsstring \<Rightarrow> instr list" where
  "emitContent content = (if content \<noteq> [] then [AppendContent (escapeContent content)] else [])"

text \<open>
  The scan of \<open>string.replace\<close> with the pattern
  \<open>reExpression|reStatement|$\<close>: at each position the alternatives are tried in this
  order, \<open>$\<close> matches at the end only, and the scan resumes after a match.
  \<open>content\<close> is \<open>string.slice(index, offset)\<close>, the text passed over since the last
  match.
\<close>

function scan :: "jsstring \<Rightarrow> jsstring \<Rightarrow> instr list" where
  "scan content s =
     (case reExpression s of
        Some (expressionValue, rest) \<Rightarrow>
          emitContent content @ AppendExpression expressionValue # scan [] rest
      | None \<Rightarrow>
          (case reStatement s of
             Some (statementValue, rest) \<Rightarrow>
               emitContent content @ Statement statementValue # scan [] rest
           | None \<Rightarrow>
               (case s of
                  [] \<Rightarrow> emitContent content
                | c # rest \<Rightarrow> scan (content @ [c]) rest)))"
  by pat_completeness auto
termination
proof -
  have t: "trailingWs cl s = Some r \<Longrightarrow> length r \<le> length s" for cl s r
    by (induction s) (auto simp: literalAt_def split: if_splits option.splits)
  have l: "lazyGroup cl s = Some (g, r) \<Longrightarrow> length r < length s" for cl s g r
    by (induction s arbitrary: g) (auto split: option.splits dest: t)
  have w: "leadingWs cl s = Some (g, r) \<Longrightarrow> length r < length s" for cl s g r
    by (induction s)
      (auto split: if_splits option.splits dest: l simp del: lazyGroup.simps(2))
  have m: "matchDelimiter opn cl s = Some (g, r) \<Longrightarrow> length r < length s" for opn cl s g r
    by (auto simp: matchDelimiter_def split: if_splits dest!: w)
  show ?thesis
    by (relation "measure (\<lambda>(content, s). length s)")
      (auto simp: reExpression_def reStatement_def dest: m)
qed

declare scan.simps [simp del]

subsection \<open>The compiled function\<close>

text \<open>
  The value of a single-quoted string literal with the given body, by the grammar of
  ECMAScript in strict code: a quote or a line terminator cannot occur unescaped; after a
  backslash come the single-character escapes, \<open>\x\<close> with two and \<open>\u\<close> with four
  hexadecimal digits, a line terminator (a line continuation) or a character that stands
  for itself; decimal digits after a backslash are rejected, and \<open>\u{...}\<close> is not
  modelled.
\<close>

definition hexDigit :: "jschar \<Rightarrow> jschar option" where
  "hexDigit c =
     (if 0x30 \<le> c \<and> c \<le> 0x39 then Some (c - 0x30)
      else if 0x61 \<le> c \<and> c \<le> 0x66 then Some (c - 0x61 + 10)
      else if 0x41 \<le> c \<and> c \<le> 0x46 then Some (c - 0x41 + 10)
      else None)"

fun hexNumber :: "jschar \<Rightarrow> jsstring \<Rightarrow> jschar option" where
  "hexNumber acc [] = Some acc"
| "hexNumber acc (c # s) =
     (case hexDigit c of Some d \<Rightarrow> hexNumber (16 * acc + d) s | None \<Rightarrow> None)"

definition lineTerminator :: "jschar \<Rightarrow> bool" where
  "lineTerminator c = (c \<in> {0x0A, 0x0D, 0x2028, 0x2029})"

definition singleEscape :: "(jschar \<times> jschar) list" where
  "singleEscape =
     [(0x27, 0x27), (0x22, 0x22), (0x5C, 0x5C), (0x62, 0x08), (0x66, 0x0C), (0x6E, 0x0A),
      (0x72, 0x0D), (0x74, 0x09), (0x76, 0x0B)]"

definition consChar :: "jschar \<Rightarrow> error + jsstring \<Rightarrow> error + jsstring" where
  "consChar c r = (case r of Inl err \<Rightarrow> Inl err | Inr s \<Rightarrow> Inr (c # s))"

function evalStringLiteral :: "jsstring \<Rightarrow> error + jsstring" where
  "evalStringLiteral [] = Inr []"
| "evalStringLiteral (c # s) =
     (if c = 0x27 \<or> lineTerminator c then Inl SyntaxError
      else if c \<noteq> 0x5C then consChar c (evalStringLiteral s)
      else (case s of
              [] \<Rightarrow> Inl SyntaxError
            | d # r \<Rightarrow>
                (case map_of singleEscape d of
                   Some v \<Rightarrow> consChar v (evalStringLiteral r)
                 | None \<Rightarrow>
                     if d = 0x75 then
                       (case hexNumber 0 (take 4 r) of
                          Some u \<Rightarrow> (if length r < 4 then Inl SyntaxError
                                     else consChar u (evalStringLiteral (drop 4 r)))
                        | None \<Rightarrow> Inl SyntaxError)
                     else if d = 0x78 then
                       (case hexNumber 0 (take 2 r) of
                          Some u \<Rightarrow> (if length r < 2 then Inl SyntaxError
                                     else consChar u (evalStringLiteral (drop 2 r)))
                        | None \<Rightarrow> Inl SyntaxError)
                     else if lineTerminator d then
                       (if d = 0x0D \<and> r \<noteq> [] \<and> hd r = 0x0A then evalStringLiteral (tl r)
                        else evalStringLiteral r)
                     else if 0x30 \<le> d \<and> d \<le> 0x39 then
                       (if d = 0x30 \<and> (r = [] \<or> \<not> (0x30 \<le> hd r \<and> hd r \<le> 0x39))
                        then consChar 0 (evalStringLiteral r) else Inl SyntaxError)
                     else consChar d (evalStringLiteral r))))"
  by pat_completeness auto
termination
  by (relation "measure length") auto

text \<open>
  The compiled code runs in the JavaScript engine, line by line. The state of a run is
  the context \<open>$\<close> and \<open>__out\<close>. What the engine does with the text of an
  expression, with a statement line and with the conversion of an object to a string is
  a parameter: \<open>evalExpr text state\<close> is the value that \<open>__append\<close> receives in
  \<open>__append(text)\<close> and the state as the evaluation leaves it, or the exception thrown;
  \<open>control code pc state\<close>, for the statement at line \<open>pc\<close> of the code body, is the
  line where the control goes next (into a block or past it, back to the head of a loop),
  or nothing when the function returns there, and the state as the statement leaves it,
  or the exception thrown; \<open>objectString v\<close> is the string that the methods of the
  object \<open>v\<close> convert it to (\<open>[object Object]\<close> by \<open>Object.prototype.toString\<close>), or
  the exception thrown (a \<open>TypeError\<close> for an object without such a method). Lines that
  run inside a function that a statement defines are part of the effect of the
  evaluation that calls it.
\<close>

type_synonym frame = "props \<times> jsstring"

record engine =
  evalExpr :: "jsstring \<Rightarrow> frame \<Rightarrow> error + jsval \<times> frame"
  control :: "instr list \<Rightarrow> nat \<Rightarrow> frame \<Rightarrow> error + nat option \<times> frame"
  objectString :: "jsval \<Rightarrow> error + jsstring"

text \<open>
  The string that \<open>__out += val\<close> appends for a value: a string as it is, a number in
  decimal notation, \<open>true\<close> and \<open>false\<close>, the elements of an array joined with commas
  (\<open>null\<close> and \<open>undefined\<close> elements as the empty string), and for an object what its
  conversion gives.
\<close>

fun digits :: "nat \<Rightarrow> jsstring" where
  "digits n = (if n < 10 then [of_nat (48 + n)] else digits (n div 10) @ [of_nat (48 + n mod 10)])"

declare digits.simps [simp del]

definition decimal :: "int \<Rightarrow> jsstring" where
  "decimal i = (if i < 0 then 0x2D # digits (nat (- i)) else digits (nat i))"

fun stringForm :: "engine \<Rightarrow> jsval \<Rightarrow> error + jsstring"
  and stringForms :: "engine \<Rightarrow> jsval list \<Rightarrow> error + jsstring list" where
  "stringForm h JUndefined = Inr (js ''undefined'')"
| "stringForm h JNull = Inr (js ''null'')"
| "stringForm h (JBool b) = Inr (if b then js ''true'' else js ''false'')"
| "stringForm h (JNum n) = Inr (decimal n)"
| "stringForm h (JStr s) = Inr s"
| "stringForm h (JArr xs) =
     (case stringForms h xs of Inl err \<Rightarrow> Inl err | Inr ss \<Rightarrow> Inr (joinWith (js '','') ss))"
| "stringForm h (JObj ps) = objectString h (JObj ps)"
| "stringForm h JSelf = objectString h JSelf"
| "stringForms h [] = Inr []"
| "stringForms h (x # xs) =
     (case (if x = JNull \<or> x = JUndefined then Inr [] else stringForm h x) of
        Inl err \<Rightarrow> Inl err
      | Inr s \<Rightarrow> (case stringForms h xs of Inl err \<Rightarrow> Inl err | Inr ss \<Rightarrow> Inr (s # ss)))"

text \<open>
  \<open>function __append(val) {if (val != null) __out += val}\<close>: \<open>val != null\<close> is
  false of \<open>null\<close> and \<open>undefined\<close> only.
\<close>

definition appendOut :: "engine \<Rightarrow> jsval \<Rightarrow> jsstring \<Rightarrow> error + jsstring" where
  "appendOut h val out =
     (if val = JNull \<or> val = JUndefined then Inr out
      else (case stringForm h val of Inl err \<Rightarrow> Inl err | Inr s \<Rightarrow> Inr (out @ s)))"

text \<open>
  One line of the code body. The two kinds of \<open>__append\<close> line are run as the source of
  \<open>__append\<close> has it and pass the control to the next line.
\<close>

definition runLine :: "engine \<Rightarrow> instr list \<Rightarrow> nat \<Rightarrow> frame \<Rightarrow> error + nat option \<times> frame" where
  "runLine h code pc state =
     (case code ! pc of
        AppendContent content \<Rightarrow>
          (case evalStringLiteral content of
             Inl err \<Rightarrow> Inl err
           | Inr s \<Rightarrow>
               (case appendOut h (JStr s) (snd state) of
                  Inl err \<Rightarrow> Inl err
                | Inr out \<Rightarrow> Inr (Some (Suc pc), (fst state, out))))
      | AppendExpression expression \<Rightarrow>
          (case evalExpr h expression state of
             Inl err \<Rightarrow> Inl err
           | Inr (val, state') \<Rightarrow>
               (case appendOut h val (snd state') of
                  Inl err \<Rightarrow> Inl err
                | Inr out \<Rightarrow> Inr (Some (Suc pc), (fst state', out))))
      | Statement statement \<Rightarrow> control h code pc state)"

text \<open>
  The body of \<open>compiledTemplate\<close> after \<open>var __out = ''\<close>: the lines of
  \<open>codeBody\<close> from line \<open>pc\<close> on, and \<open>return __out\<close> after the last one. A loop
  of the template may run forever: the run is then \<open>None\<close>.
\<close>

partial_function (option) run :: "engine \<Rightarrow> instr list \<Rightarrow> nat \<times> frame \<Rightarrow> (error + jsstring) option" where
  "run h code at =
     (if length code \<le> fst at then Some (Inr (snd (snd at)))
      else (case runLine h code (fst at) (snd at) of
              Inl err \<Rightarrow> Some (Inl err)
            | Inr (None, state) \<Rightarrow> Some (Inr (snd state))
            | Inr (Some pc, state) \<Rightarrow> run h code (pc, state)))"

declare run.simps [code]

text \<open>
  \<open>compileTemplate(string, settings)\<close> with the default delimiters;
  \<open>context\<close> is \<open>settings.context\<close>. The compiled function starts with
  \<open>$ = Object.assign({}, __context, $)\<close>.
\<close>

definition compileTemplate :: "engine \<Rightarrow> jsstring \<Rightarrow> props \<Rightarrow> jsval \<Rightarrow> (error + jsstring) option" where
  "compileTemplate h string context =
     (let codeBody = scan [] string
      in (\<lambda>data. run h codeBody (0, (assign (assign [] context) (ownProps data), []))))"

text \<open>A source without delimiters: neither pattern matches at any position.\<close>

definition noDelimiters :: "jsstring \<Rightarrow> bool" where
  "noDelimiters s = list_all (\<lambda>t. reExpression t = None \<and> reStatement t = None) (suffixes s)"

text \<open>
  An engine for the examples. The expression \<open>$.k\<close> is the property \<open>k\<close> of the
  context and any other expression throws; the statement \<open>if ($.k) {\<close> enters its block
  when the property is truthy and goes past the next line \<open>}\<close> otherwise, \<open>}\<close> goes
  on, and any other statement throws. The context's reference to itself is an object
  without a conversion, any other object is a plain one.
\<close>

definition demoEngine :: engine where
  "demoEngine =
     \<lparr>evalExpr = (\<lambda>x state. if prefix (js ''$.'') x then Inr (lookup (fst state) (drop 2 x), state)
                               else Inl (Thrown (JStr x))),
      control = (\<lambda>code pc state.
        (case code ! pc of
           Statement s \<Rightarrow>
             if s = js ''}'' then Inr (Some (Suc pc), state)
             else if prefix (js ''if ($.'') s \<and> suffix (js '') {'') s then
               (if truthy (lookup (fst state) (take (length s - 9) (drop 6 s)))
                then Inr (Some (Suc pc), state)
                else Inr (Some (Suc pc + length (takeWhile (\<lambda>l. l \<noteq> Statement (js ''}'')) (drop (Suc pc) code)) + 1),
                          state))
             else Inl (Thrown (JStr s))
         | _ \<Rightarrow> Inl (Thrown JUndefined))),
      objectString = (\<lambda>v. if v = JSelf then Inl TypeError else Inr (js ''[object Object]''))\<rparr>"

section \<open>Verified properties\<close>

subsection \<open>Objects\<close>

lemma lookup_setKey: "lookup (setKey k v ps) k' = (if k' = k then v else lookup ps k')"
  by (induction ps) (auto simp: lookup_def)

subsection \<open>Page titles\<close>

text \<open>
  C6. For a context object and non-empty string titles, \<open>$entitle\<close> stores the title
  when \<open>$title\<close> is unset or empty and prepends it with the separator \<open>" | "\<close> when
  \<open>$title\<close> is a non-empty string; so entitling with \<open>a\<close> and then with \<open>b\<close> a
  context without a title leaves \<open>b | a\<close>. A title that is not a string or is empty, and
  a context that is not an object, leave the context as it was.
\<close>

theorem entitle_spec:
  assumes "a \<noteq> []" and "b \<noteq> []"
  shows "(lookup ps (js ''$title'') \<in> {JUndefined, JStr []} \<longrightarrow>
           entitle (JStr a) (JObj ps) = JObj (setKey (js ''$title'') (JStr a) ps)
         \<and> titleOf (entitle (JStr b) (entitle (JStr a) (JObj ps))) = JStr (b @ js '' | '' @ a))
       \<and> (\<forall>old. lookup ps (js ''$title'') = JStr old \<and> old \<noteq> [] \<longrightarrow>
           entitle (JStr a) (JObj ps) = JObj (setKey (js ''$title'') (JStr (a @ js '' | '' @ old)) ps))
       \<and> (\<not> isString title \<or> title = JStr [] \<longrightarrow> entitle title data = data)
       \<and> (\<not> isObject data \<longrightarrow> entitle title data = data)"
proof (intro conjI impI allI)
  assume u: "lookup ps (js ''$title'') \<in> {JUndefined, JStr []}"
  then show s: "entitle (JStr a) (JObj ps) = JObj (setKey (js ''$title'') (JStr a) ps)"
    using assms by auto
  show "titleOf (entitle (JStr b) (entitle (JStr a) (JObj ps))) = JStr (b @ js '' | '' @ a)"
    unfolding s using assms by (simp add: lookup_setKey titleOf_def)
next
  fix old assume "lookup ps (js ''$title'') = JStr old \<and> old \<noteq> []"
  then show "entitle (JStr a) (JObj ps) = JObj (setKey (js ''$title'') (JStr (a @ js '' | '' @ old)) ps)"
    using assms by simp
next
  assume "\<not> isString title \<or> title = JStr []"
  then show "entitle title data = data"
    by (cases data) auto
next
  assume "\<not> isObject data"
  then show "entitle title data = data"
    by (cases data) auto
qed

theorem entitle_spec_witness:
  "titleOf (entitle (JStr (js ''B'')) (entitle (JStr (js ''A'')) (JObj []))) = JStr (js ''B | A'')
   \<and> entitle (JStr (js ''A'')) (JObj [(js ''$title'', JStr (js ''X''))])
       = JObj [(js ''$title'', JStr (js ''A | X''))]
   \<and> entitle (JNum 3) (JObj []) = JObj []
   \<and> entitle (JStr (js ''A'')) JNull = JNull"
  using entitle_spec [of "js ''A''" "js ''B''" "[]" "JNum 3" "JObj []"]
    entitle_spec [of "js ''A''" "js ''B''" "[(js ''$title'', JStr (js ''X''))]" "JStr (js ''A'')" JNull]
  by (simp add: js_def lookup_def)

subsection \<open>Paths and the metadata registry\<close>

lemma metaDir_dir: "metaDir (d @ [slash]) = d"
  by (simp add: metaDir_def)

lemma dropWhile_no_slash: "slash \<notin> set f \<Longrightarrow> dropWhile (\<lambda>x. x \<noteq> slash) (rev f @ slash # r) = slash # r"
  by (induction f rule: rev_induct) auto

lemma dirname_file:
  assumes "f \<noteq> []" "slash \<notin> set f"
  shows "dirname (c # d @ slash # f) = (if c = slash \<and> d = [] then js ''//'' else c # d)"
proof -
  have "hd (rev f) \<noteq> slash" using assms by (metis hd_rev last_in_set)
  then have 1: "dropWhile (\<lambda>x. x = slash) (rev f @ slash # rev d) = rev f @ slash # rev d"
    using assms by (cases "rev f") auto
  show ?thesis
    using assms by (simp add: dirname_def 1 dropWhile_no_slash Let_def)
qed

lemma dirname_root_file:
  assumes "f \<noteq> []" "slash \<notin> set f"
  shows "dirname (slash # f) = js ''/''"
proof -
  have r: "dropWhile (\<lambda>x. x \<noteq> slash) (dropWhile (\<lambda>x. x = slash) (rev f)) = []"
  proof -
    have a: "\<forall>x \<in> set (dropWhile (\<lambda>x. x = slash) (rev f)). x \<noteq> slash"
      using assms(2) by (metis set_dropWhileD set_rev)
    show ?thesis unfolding dropWhile_eq_Nil_conv by (rule a)
  qed
  show ?thesis by (simp add: dirname_def r del: dropWhile_eq_Nil_conv)
qed

lemma metaDir_file:
  assumes "f \<noteq> []" "slash \<notin> set f"
  shows "metaDir (d @ slash # f) = (if d = [] then js ''/'' else if d = [slash] then js ''//'' else d)"
proof -
  have l: "last f \<noteq> slash" using assms by (metis last_in_set)
  show ?thesis
  proof (cases d)
    case Nil
    then show ?thesis using assms l dirname_root_file[OF assms] by (simp add: metaDir_def)
  next
    case (Cons c d')
    then show ?thesis using assms l dirname_file[OF assms, of c d'] by (simp add: metaDir_def)
  qed
qed

lemma splitOn_no_sep: "s \<in> set (splitOn c xs) \<Longrightarrow> c \<notin> set s"
  by (induction xs arbitrary: s) (auto split: if_splits list.splits)

lemma normStep_relSeg:
  assumes "\<forall>s \<in> set acc. relSeg s" "seg \<noteq> [] \<longrightarrow> relSeg seg"
  shows "\<forall>s \<in> set (normStep a acc seg). relSeg s"
  using assms by (auto simp: normStep_def relSeg_def js_def slash_def split: list.splits)

lemma foldl_normStep_relSeg:
  assumes "\<forall>s \<in> set acc. relSeg s" "\<forall>s \<in> set segs. s \<noteq> [] \<longrightarrow> relSeg s"
  shows "\<forall>s \<in> set (foldl (normStep a) acc segs). relSeg s"
  using assms
proof (induction segs arbitrary: acc)
  case Nil then show ?case by simp
next
  case (Cons x xs)
  have "\<forall>s \<in> set (normStep a acc x). relSeg s"
    using Cons.prems by (intro normStep_relSeg) auto
  then show ?case using Cons by simp
qed

lemma splitOn_relSeg: "\<forall>s \<in> set (splitOn slash p). s \<noteq> [] \<longrightarrow> relSeg s"
proof (intro ballI impI)
  fix s assume a: "s \<in> set (splitOn slash p)" and b: "s \<noteq> []"
  from a have "slash \<notin> set s" by (rule splitOn_no_sep)
  with b have "hd s \<noteq> slash" by (metis hd_in_set)
  with b show "relSeg s" unfolding relSeg_def by blast
qed

lemma normalizeSegs_relSeg:
  assumes "\<forall>s \<in> set segs. s \<noteq> [] \<longrightarrow> relSeg s"
  shows "\<forall>s \<in> set (normalizeSegs a segs). relSeg s"
proof -
  have "\<forall>s \<in> set (foldl (normStep a) [] segs). relSeg s"
    by (rule foldl_normStep_relSeg) (simp, rule assms)
  then show ?thesis by (simp only: normalizeSegs_def set_rev)
qed

lemma resolveSegs_relSeg: "\<forall>s \<in> set (resolveSegs c p). relSeg s"
proof -
  have 1: "\<forall>s \<in> set (splitOn slash c @ splitOn slash p). s \<noteq> [] \<longrightarrow> relSeg s"
    using splitOn_relSeg[of p] splitOn_relSeg[of c] by (simp only: set_append ball_Un)
  show ?thesis
  proof (cases "p \<noteq> [] \<and> hd p = slash")
    case True
    then have "resolveSegs c p = normalizeSegs False (splitOn slash p)"
      by (simp add: resolveSegs_def)
    then show ?thesis using normalizeSegs_relSeg[OF splitOn_relSeg[of p]] by simp
  next
    case False
    then have "resolveSegs c p = normalizeSegs False (splitOn slash c @ splitOn slash p)"
      by (auto simp add: resolveSegs_def)
    then show ?thesis using normalizeSegs_relSeg[OF 1] by simp
  qed
qed

lemma joinWith_hd: "\<forall>s \<in> set ss. relSeg s \<Longrightarrow> joinWith [slash] ss = [] \<or> hd (joinWith [slash] ss) \<noteq> slash"
proof (cases ss)
  case Nil then show ?thesis by simp
next
  case (Cons s ts)
  assume "\<forall>s \<in> set ss. relSeg s"
  then show ?thesis using Cons by (cases ts) (auto simp: relSeg_def)
qed

lemma relative_not_absolute: "relative c from to = [] \<or> hd (relative c from to) \<noteq> slash"
proof -
  have "\<forall>s \<in> set (replicate k (js ''..'') @ drop n (resolveSegs c to)). relSeg s" for k n
    using resolveSegs_relSeg[of c to] by (auto simp: relSeg_def js_def slash_def dest: in_set_dropD)
  then show ?thesis
    unfolding relative_def Let_def by (auto intro!: joinWith_hd simp del: set_append set_replicate)
qed

lemma dirname_not_absolute:
  assumes "p = [] \<or> hd p \<noteq> slash"
  shows "dirname p \<noteq> [] \<and> hd (dirname p) \<noteq> slash"
  using assms by (cases p) (auto simp: dirname_def Let_def js_def slash_def)

lemma set_setKey: "fst ` set (setKey k v ps) = insert k (fst ` set ps)"
  by (induction ps) auto

lemma register_meta:
  assumes "register e st source path = Inr st'"
  shows "meta st' = meta st
    \<or> (\<exists>m. meta st' = setKey (dirname (relative (cwd e) (cwd e) path)) m (meta st))"
  using assms unfolding register_def Let_def
  by (auto split: if_splits sum.splits)

lemma register_relativeKeys:
  assumes "relativeKeys st" "register e st source path = Inr st'"
  shows "relativeKeys st'"
proof -
  define dir where "dir = dirname (relative (cwd e) (cwd e) path)"
  have d: "dir \<noteq> [] \<and> hd dir \<noteq> slash"
    unfolding dir_def by (rule dirname_not_absolute[OF relative_not_absolute])
  from register_meta[OF assms(2)]
  have "meta st' = meta st \<or> (\<exists>m. meta st' = setKey dir m (meta st))"
    unfolding dir_def .
  then show ?thesis
  proof (elim disjE exE)
    assume "meta st' = meta st"
    then show ?thesis using assms(1) by (simp add: relativeKeys_def)
  next
    fix m assume "meta st' = setKey dir m (meta st)"
    then have "fst ` set (meta st') = insert dir (fst ` set (meta st))"
      by (simp add: set_setKey)
    then show ?thesis using assms(1) d by (simp add: relativeKeys_def)
  qed
qed

lemma registered_relativeKeys: "registered e st \<Longrightarrow> relativeKeys st"
proof (induction rule: registered.induct)
  case (new r)
  show ?case by (simp add: newStatil_def relativeKeys_def)
next
  case (reg st source path st')
  then show ?case using register_relativeKeys by blast
qed

lemma lookup_absent: "k \<notin> fst ` set ps \<Longrightarrow> lookup ps k = JUndefined"
  by (simp add: lookup_def map_of_eq_None_iff[THEN iffD2])

text \<open>
  C10. For a file name \<open>f\<close> (not empty, without a slash), \<open>metaAtPath\<close> of the
  directory form \<open>d/\<close> and of the file path \<open>d/f\<close> return the same entry of the
  metadata registry: for every \<open>d\<close> when the registry was filled by \<open>register\<close>, and
  for every \<open>d\<close> other than the empty string and \<open>/\<close> whatever the registry holds.
\<close>

theorem metaAtPath_dir_file:
  assumes "f \<noteq> []" and "slash \<notin> set f"
    and "registered e st \<or> (d \<noteq> [] \<and> d \<noteq> [slash])"
  shows "metaAtPath st (d @ [slash]) = metaAtPath st (d @ [slash] @ f)"
proof (cases "d \<noteq> [] \<and> d \<noteq> [slash]")
  case True
  then show ?thesis using metaDir_file[OF assms(1,2), of d] by (simp add: metaAtPath_def metaDir_dir)
next
  case False
  then have r: "relativeKeys st" using assms(3) registered_relativeKeys by blast
  have a: "lookup (meta st) k = JUndefined" if "k = [] \<or> hd k = slash" for k
    using r that by (intro lookup_absent) (auto simp: relativeKeys_def)
  have k1: "metaDir (d @ [slash]) = [] \<or> hd (metaDir (d @ [slash])) = slash"
    using False by (auto simp: metaDir_dir)
  have "metaDir (d @ slash # f) = js ''/'' \<or> metaDir (d @ slash # f) = js ''//''"
    using False metaDir_file[OF assms(1,2), of d] by (cases "d = []") simp_all
  then have k2: "metaDir (d @ slash # f) = [] \<or> hd (metaDir (d @ slash # f)) = slash"
    by (elim disjE) (simp_all add: js_def slash_def)
  show ?thesis
    unfolding metaAtPath_def using a[OF k1] a[OF k2] by simp
qed

theorem metaAtPath_dir_file_witness:
  "metaAtPath (newStatil None) (js ''/'') = metaAtPath (newStatil None) (js ''/index.html'')
   \<and> metaAtPath \<lparr>templates = [], meta = [(js ''a/b'', JNum 1), (js ''a'', JNum 2)], rename = None\<rparr> (js ''a/b/'')
     = metaAtPath \<lparr>templates = [], meta = [(js ''a/b'', JNum 1), (js ''a'', JNum 2)], rename = None\<rparr> (js ''a/b/c.html'')"
  using metaAtPath_dir_file[of "js ''index.html''" demoEnv "newStatil None" "[]"]
    metaAtPath_dir_file[of "js ''c.html''" demoEnv "\<lparr>templates = [], meta = [(js ''a/b'', JNum 1), (js ''a'', JNum 2)], rename = None\<rparr>" "js ''a/b''"]
    registered.new[of demoEnv None]
  by (simp add: js_def slash_def)

subsection \<open>The active link\<close>

lemma active_examples:
  "active e (JStr (js ''/docs/'')) (JObj [(js ''$path'', JStr (js ''/docs/intro''))]) = js ''active''
   \<and> active e (JStr (js ''/blog/'')) (JObj [(js ''$path'', JStr (js ''/docs/intro''))]) = []
   \<and> active e (JStr (js ''/docs'')) (JObj [(js ''$path'', JStr (js ''/docs''))]) = js ''active''"
  by (simp add: active_def js_def lookup_def relative_def resolveSegs_def normalizeSegs_def normStep_def slash_def dot_def)

lemma active_wrong_shape:
  "\<not> isObject data \<or> \<not> isString path \<or> \<not> isString (getProp data (js ''$path'')) \<Longrightarrow> active e path data = []"
  by (cases path; cases "getProp data (js ''$path'')") (auto simp: active_def)

lemma joinWith_first:
  "s \<noteq> [] \<Longrightarrow> joinWith sep (s # ss) \<noteq> [] \<and> hd (joinWith sep (s # ss)) = hd s"
  by (cases ss) auto

lemma lcp_full: "length (longest_common_prefix f t) = length f \<longleftrightarrow> prefix f t"
proof
  assume "length (longest_common_prefix f t) = length f"
  then have "longest_common_prefix f t = f"
    using longest_common_prefix_prefix1[of f t]
    by (metis append_eq_append_conv append_Nil2 prefix_def)
  then show "prefix f t"
    using longest_common_prefix_prefix2[of f t] by simp
next
  assume "prefix f t"
  then have "prefix f (longest_common_prefix f t)"
    by (intro longest_common_prefix_max_prefix) auto
  then show "length (longest_common_prefix f t) = length f"
    using longest_common_prefix_prefix1[of f t] by (metis prefix_order.antisym)
qed

lemma relative_nested:
  assumes "from \<noteq> to" and "prefix (resolveSegs c from) (resolveSegs c to)"
  shows "relative c from to = joinWith [slash] (drop (length (resolveSegs c from)) (resolveSegs c to))"
  using assms lcp_full[of "resolveSegs c from" "resolveSegs c to"]
  by (simp add: relative_def Let_def)

lemma relative_outside:
  assumes "\<not> prefix (resolveSegs c from) (resolveSegs c to)"
  shows "relative c from to \<noteq> [] \<and> hd (relative c from to) = dot"
proof -
  let ?n = "length (longest_common_prefix (resolveSegs c from) (resolveSegs c to))"
  have ne: "from \<noteq> to" using assms by auto
  have "?n \<le> length (resolveSegs c from)"
    using longest_common_prefix_prefix1[of "resolveSegs c from" "resolveSegs c to"]
    by (rule prefix_length_le)
  then have "?n < length (resolveSegs c from)"
    using assms lcp_full[of "resolveSegs c from" "resolveSegs c to"] by simp
  then obtain k where k: "length (resolveSegs c from) - ?n = Suc k"
    by (metis Suc_diff_Suc)
  have "relative c from to = joinWith [slash] (js ''..'' # (replicate k (js ''..'') @ drop ?n (resolveSegs c to)))"
    using ne by (simp add: relative_def Let_def k)
  then show ?thesis
    using joinWith_first[of "js ''..''" "[slash]"] by (simp add: js_def dot_def)
qed

text \<open>
  What \<open>$active\<close> computes, on the segments of the two resolved paths: the path of the
  data must lie under the prefix, and the first segment below the prefix, if there is
  one, must not begin with a dot.
\<close>

lemma active_nested:
  assumes "lookup d (js ''$path'') = JStr q"
  shows "active e (JStr p) (JObj d) =
     (if prefix (resolveSegs (cwd e) p) (resolveSegs (cwd e) q)
         \<and> (resolveSegs (cwd e) p = resolveSegs (cwd e) q
            \<or> hd (resolveSegs (cwd e) q ! length (resolveSegs (cwd e) p)) \<noteq> dot)
      then js ''active'' else [])"
proof -
  let ?f = "resolveSegs (cwd e) p" and ?t = "resolveSegs (cwd e) q"
  let ?rel = "relative (cwd e) p q"
  have a: "active e (JStr p) (JObj d) = (if ?rel = [] \<or> hd ?rel \<noteq> dot then js ''active'' else [])"
    using assms by (simp add: active_def Let_def)
  show ?thesis
  proof (cases "prefix ?f ?t")
    case False
    then show ?thesis using relative_outside[OF False] a by simp
  next
    case True
    show ?thesis
    proof (cases "?f = ?t")
      case same: True
      then have "?rel = []"
        using lcp_full[of ?t ?t] by (simp add: relative_def Let_def)
      then show ?thesis using a same by simp
    next
      case diff: False
      then have pq: "p \<noteq> q" by auto
      from True diff obtain s ss where t: "?t = ?f @ s # ss"
        by (metis prefix_def neq_Nil_conv append_Nil2)
      have "s \<in> set ?t" using t by simp
      then have s: "s \<noteq> []" using resolveSegs_relSeg[of "cwd e" q] by (auto simp: relSeg_def)
      have "?rel = joinWith [slash] (s # ss)"
        using relative_nested[OF pq True] t by simp
      then have "?rel \<noteq> [] \<and> hd ?rel = hd s"
        using joinWith_first[OF s, of "[slash]" ss] by simp
      moreover have "?t ! length ?f = s" using t by (metis nth_append_length)
      ultimately show ?thesis using a True diff by simp
    qed
  qed
qed

text \<open>
  C7. \<open>$active\<close> compares the first character of the relative path with a dot, so a
  path nested under the prefix whose first segment below it begins with a dot is not
  reported active: \<open>/docs/.hidden\<close> lies under \<open>/docs\<close>, its relative path
  \<open>.hidden\<close> does not begin with the parent marker \<open>..\<close>, and the result is the
  empty string.
\<close>

theorem active_hidden_file:
  "active e (JStr (js ''/docs'')) (JObj [(js ''$path'', JStr (js ''/docs/.hidden''))]) = []
   \<and> relative (cwd e) (js ''/docs'') (js ''/docs/.hidden'') = js ''.hidden''
   \<and> prefix (resolveSegs (cwd e) (js ''/docs'')) (resolveSegs (cwd e) (js ''/docs/.hidden''))"
  by (simp add: active_def js_def lookup_def relative_def resolveSegs_def normalizeSegs_def normStep_def slash_def dot_def)

subsection \<open>Registration of metadata\<close>

lemma register_duplicate_truthy:
  assumes "path \<noteq> []"
    and "extname (relative (cwd e) (cwd e) path) \<in> {js ''.yaml'', js ''.json''}"
    and "truthy (lookup (meta st) (dirname (relative (cwd e) (cwd e) path)))"
  shows "register e st source path = Inl (DuplicateMeta (dirname (relative (cwd e) (cwd e) path)))"
  using assms by (auto simp: register_def validateTruthyString_def Let_def)

text \<open>
  C8. The duplicate check of \<open>register\<close> tests the registered value for truthiness.
  After an empty \<open>a/meta.yaml\<close>, whose parse is \<open>undefined\<close>, registering
  \<open>a/meta.json\<close> for the same directory is accepted and replaces the entry.
\<close>

theorem register_second_meta_accepted:
  "register demoEnv (newStatil None) [] (js ''a/meta.yaml'')
     = Inr \<lparr>templates = [], meta = [(js ''a'', JUndefined)], rename = None\<rparr>
   \<and> register demoEnv \<lparr>templates = [], meta = [(js ''a'', JUndefined)], rename = None\<rparr>
        (js ''draft'') (js ''a/meta.json'')
     = Inr \<lparr>templates = [], meta = [(js ''a'', JObj [(js ''ignore'', JStr (js ''draft''))])], rename = None\<rparr>"
  by (simp add: register_def demoEnv_def newStatil_def validateTruthyString_def js_def lookup_def relative_def resolveSegs_def normalizeSegs_def normStep_def slash_def dot_def extname_def basename_def dirname_def)

subsection \<open>Contexts that are not objects\<close>

lemma renderOne_non_object:
  "\<not> isObject data \<Longrightarrow> renderOne e st path data = renderOne e st path (JObj [])"
  by (simp add: renderOne_def Let_def split: sum.splits)

lemma renderThrough_non_object:
  "\<not> isObject data \<Longrightarrow> renderThrough e st path data = renderThrough e st path (JObj [])"
  by (simp add: renderThrough_def Let_def split: sum.splits)

lemma renderThrough_number_proceeds:
  "renderThrough demoEnv demoSite (js ''blog/post'') (JNum 7)
     = Inr (JStr (js ''<html>post''),
            [(js ''$content'', JStr (js ''<html>post'')), (js ''$title'', JStr []), (js ''$'', JSelf),
             (js ''$meta'', JObj [(js ''ignore'', JStr (js ''draft''))])])"
  by code_simp

text \<open>
  C4, as the code has it. A data argument of \<open>renderOne\<close> or \<open>renderThrough\<close> that
  is not an object is replaced by a new empty context, and the call proceeds as it does
  for an empty context object.
\<close>

theorem render_replaces_non_object:
  assumes "\<not> isObject data"
  shows "renderOne e st path data = renderOne e st path (JObj [])
       \<and> renderThrough e st path data = renderThrough e st path (JObj [])"
  using assms by (simp add: renderOne_non_object renderThrough_non_object)

theorem render_replaces_non_object_witness:
  "renderOne demoEnv demoSite (js ''blog/post'') JNull = renderOne demoEnv demoSite (js ''blog/post'') (JObj [])
   \<and> renderThrough demoEnv demoSite (js ''blog/post'') JNull = renderThrough demoEnv demoSite (js ''blog/post'') (JObj [])"
  using render_replaces_non_object[of JNull demoEnv demoSite "js ''blog/post''"] by simp

text \<open>
  C4, as stated, fails: \<open>renderOne\<close> with \<open>null\<close> for the data does not fail with a
  validation error, it renders the template.
\<close>

theorem renderOne_null_proceeds:
  "renderOne demoEnv demoSite (js ''blog/post'') JNull
     = Inr (JStr (js ''post''),
            [(js ''$content'', JStr []), (js ''$title'', JStr []), (js ''$'', JSelf),
             (js ''$meta'', JObj [(js ''ignore'', JStr (js ''draft''))])])"
  by code_simp

subsection \<open>Levels without a template\<close>

lemma setKey_same: "k \<in> fst ` set ps \<Longrightarrow> setKey k (lookup ps k) ps = ps"
  by (induction ps) (auto simp: lookup_def)

lemma keys_foldl_setKey:
  "fst ` set (foldl (\<lambda>acc p. setKey (fst p) (snd p) acc) dst src) = fst ` set dst \<union> fst ` set src"
  by (induction src arbitrary: dst) (auto simp: set_setKey)

lemma keys_assign: "fst ` set (assign dst src) = fst ` set dst \<union> fst ` set src"
  unfolding assign_def by (rule keys_foldl_setKey)

lemma lookup_foldl_setKey:
  "k \<notin> fst ` set src \<Longrightarrow>
   lookup (foldl (\<lambda>acc p. setKey (fst p) (snd p) acc) dst src) k = lookup dst k"
  by (induction src arbitrary: dst) (auto simp: lookup_setKey)

lemma lookup_assign_other: "k \<notin> fst ` set src \<Longrightarrow> lookup (assign dst src) k = lookup dst k"
  unfolding assign_def by (rule lookup_foldl_setKey)

lemma content_key_defaults: "js ''$content'' \<in> fst ` set (defaults st path d)"
proof -
  have 1: "js ''$content'' \<in> fst ` set (if \<not> isString (lookup d (js ''$content'')) then setKey (js ''$content'') (JStr []) d else d)"
    by (cases "js ''$content'' \<in> fst ` set d")
      (auto simp: set_setKey lookup_absent simp del: set_map)
  show ?thesis
    unfolding defaults_def Let_def using 1
    by (simp add: set_setKey keys_assign del: image_insert)
qed

lemma defaults_content:
  assumes "isString (lookup d (js ''$content''))"
    and "js ''$content'' \<notin> fst ` set (ownProps (fileLegend st path))"
  shows "lookup (defaults st path d) (js ''$content'') = lookup d (js ''$content'')"
  using assms unfolding defaults_def Let_def
  by (simp add: lookup_assign_other lookup_setKey js_def)

lemma renderOne_unregistered:
  assumes "path \<noteq> []" and "map_of (templates st) (stripExt e path) = None"
  shows "renderOne e st path (JObj d)
           = Inr (lookup (defaults st path d) (js ''$content''), defaults st path d)"
  using assms
  by (simp add: renderOne_def validateTruthyString_def locals_def validateWritable_def transclude_def)

lemma renderEachRight_append:
  "renderEachRight e st (xs @ ys) d =
     (case renderEachRight e st xs d of Inl err \<Rightarrow> Inl err | Inr d' \<Rightarrow> renderEachRight e st ys d')"
  by (induction xs arbitrary: d) (auto split: sum.splits)

text \<open>
  C3. Where no template is registered at the extension-stripped path, \<open>renderOne\<close>
  returns the \<open>$content\<close> of the context, after the default locals are written; that
  is the \<open>$content\<close> the context came with when that is a string and the legend of the
  path does not set one. In the chain of \<open>renderThrough\<close> such a level never fails: the
  templates after it run on the context that the ones before it left, with the default
  locals of the level and the same \<open>$content\<close>.
\<close>

theorem unregistered_level_passes_content:
  assumes "path \<noteq> []" and "map_of (templates st) (stripExt e path) = None"
  shows "renderOne e st path (JObj d)
           = Inr (lookup (defaults st path d) (js ''$content''), defaults st path d)
       \<and> (isString (lookup d (js ''$content'')) \<and> js ''$content'' \<notin> fst ` set (ownProps (fileLegend st path))
            \<longrightarrow> renderOne e st path (JObj d) = Inr (lookup d (js ''$content''), defaults st path d))
       \<and> renderEachRight e st (before @ path # after) d =
            (case renderEachRight e st before d of
               Inl err \<Rightarrow> Inl err
             | Inr d' \<Rightarrow> renderEachRight e st after (defaults st path d'))"
proof (intro conjI impI)
  show 1: "renderOne e st path (JObj d)
           = Inr (lookup (defaults st path d) (js ''$content''), defaults st path d)"
    by (rule renderOne_unregistered[OF assms])
  show "renderOne e st path (JObj d) = Inr (lookup d (js ''$content''), defaults st path d)"
    if "isString (lookup d (js ''$content'')) \<and> js ''$content'' \<notin> fst ` set (ownProps (fileLegend st path))"
    using that 1 defaults_content by simp
  have step: "renderEachRight e st (path # after) d' = renderEachRight e st after (defaults st path d')" for d'
    using renderOne_unregistered[OF assms, of d'] setKey_same[OF content_key_defaults, of st path d']
    by simp
  show "renderEachRight e st (before @ path # after) d =
            (case renderEachRight e st before d of
               Inl err \<Rightarrow> Inl err
             | Inr d' \<Rightarrow> renderEachRight e st after (defaults st path d'))"
    by (simp add: renderEachRight_append step del: renderEachRight.simps split: sum.splits)
qed

theorem unregistered_level_passes_content_witness:
  "renderOne demoChain demoSite (js ''blog/index'') (JObj [(js ''$content'', JStr (js ''post''))])
     = Inr (JStr (js ''post''), defaults demoSite (js ''blog/index'') [(js ''$content'', JStr (js ''post''))])
   \<and> renderThrough demoChain demoSite (js ''blog/post'') (JObj []) =
       Inr (JStr (js ''<html>post''),
            [(js ''$content'', JStr (js ''<html>post'')), (js ''$title'', JStr []), (js ''$'', JSelf),
             (js ''$meta'', JObj [(js ''ignore'', JStr (js ''draft''))])])"
proof -
  have p: "js ''blog/index'' \<noteq> []" by (simp add: js_def)
  have u: "map_of (templates demoSite) (stripExt demoChain (js ''blog/index'')) = None"
    by code_simp
  have s: "isString (lookup [(js ''$content'', JStr (js ''post''))] (js ''$content''))
     \<and> js ''$content'' \<notin> fst ` set (ownProps (fileLegend demoSite (js ''blog/index'')))"
    by code_simp
  have t: "renderThrough demoChain demoSite (js ''blog/post'') (JObj []) =
       Inr (JStr (js ''<html>post''),
            [(js ''$content'', JStr (js ''<html>post'')), (js ''$title'', JStr []), (js ''$'', JSelf),
             (js ''$meta'', JObj [(js ''ignore'', JStr (js ''draft''))])])"
    by code_simp
  have l: "lookup [(js ''$content'', JStr (js ''post''))] (js ''$content'') = JStr (js ''post'')"
    by (simp add: lookup_def)
  from unregistered_level_passes_content[OF p u, of "[(js ''$content'', JStr (js ''post''))]" "[]" "[]"] s
  have "renderOne demoChain demoSite (js ''blog/index'') (JObj [(js ''$content'', JStr (js ''post''))])
     = Inr (lookup [(js ''$content'', JStr (js ''post''))] (js ''$content''),
            defaults demoSite (js ''blog/index'') [(js ''$content'', JStr (js ''post''))])"
    by blast
  then show ?thesis using t by (simp only: l)
qed

subsection \<open>Ignored templates\<close>

lemma isIgnored_match:
  assumes "metaAtPath st p = JObj m" and "lookup m (js ''ignore'') = JStr pat" and "pat \<noteq> []"
  shows "isIgnored e st p = reMatch e pat (basename p)"
  using assms by (simp add: isIgnored_def)

lemma isIgnored_no_pattern:
  assumes "\<not> truthy (metaAtPath st p) \<or> \<not> truthy (getProp (metaAtPath st p) (js ''ignore''))"
  shows "isIgnored e st p = Inr False"
  using assms by (auto simp: isIgnored_def Let_def)

lemma renderPaths_skip:
  assumes "isIgnored e st p = Inr True"
  shows "renderPaths e st data paths buffer = renderPaths e st data (filter (\<lambda>q. q \<noteq> p) paths) buffer"
  using assms
  by (induction paths arbitrary: buffer) (auto split: sum.splits bool.splits)

text \<open>
  C9. When the metadata of the directory of \<open>p\<close> has an \<open>ignore\<close> pattern that the
  basename of \<open>p\<close> matches, \<open>render\<close> computes its output from the other registered
  paths alone: \<open>renderTemplate\<close> is never called for \<open>p\<close>. A path whose directory has
  no metadata, or metadata without a truthy \<open>ignore\<close>, is never skipped.
\<close>

theorem render_skips_ignored:
  assumes "metaAtPath st p = JObj m" and "lookup m (js ''ignore'') = JStr pat" and "pat \<noteq> []"
    and "reMatch e pat (basename p) = Inr True"
  shows "render e st data = renderPaths e st data (filter (\<lambda>q. q \<noteq> p) (map fst (templates st))) []
       \<and> (\<forall>q paths buffer. \<not> truthy (metaAtPath st q) \<or> \<not> truthy (getProp (metaAtPath st q) (js ''ignore''))
            \<longrightarrow> renderPaths e st data (q # paths) buffer =
                 (case renderTemplate e st q data of
                    Inl err \<Rightarrow> Inl err
                  | Inr b \<Rightarrow> renderPaths e st data paths (assign buffer b)))"
proof (intro conjI allI impI)
  have "isIgnored e st p = Inr True"
    using isIgnored_match[OF assms(1-3)] assms(4) by simp
  then show "render e st data = renderPaths e st data (filter (\<lambda>q. q \<noteq> p) (map fst (templates st))) []"
    unfolding render_def by (rule renderPaths_skip)
next
  fix q paths buffer
  assume "\<not> truthy (metaAtPath st q) \<or> \<not> truthy (getProp (metaAtPath st q) (js ''ignore''))"
  then have "isIgnored e st q = Inr False" by (rule isIgnored_no_pattern)
  then show "renderPaths e st data (q # paths) buffer =
                 (case renderTemplate e st q data of
                    Inl err \<Rightarrow> Inl err
                  | Inr b \<Rightarrow> renderPaths e st data paths (assign buffer b))"
    by simp
qed

theorem render_skips_ignored_witness:
  "render demoEnv demoSite JUndefined
     = renderPaths demoEnv demoSite JUndefined [js ''index'', js ''blog/post''] []
   \<and> render demoEnv demoSite JUndefined
     = Inr [(js ''index'', JStr (js ''<html>'')), (js ''blog/post'', JStr (js ''<html>post''))]"
proof -
  have m: "metaAtPath demoSite (js ''blog/draft'') = JObj [(js ''ignore'', JStr (js ''draft''))]"
    by code_simp
  have l: "lookup [(js ''ignore'', JStr (js ''draft''))] (js ''ignore'') = JStr (js ''draft'')"
    by code_simp
  have n: "js ''draft'' \<noteq> []" by (simp add: js_def)
  have r: "reMatch demoEnv (js ''draft'') (basename (js ''blog/draft'')) = Inr True"
    by code_simp
  have f: "filter (\<lambda>q. q \<noteq> js ''blog/draft'') (map fst (templates demoSite)) = [js ''index'', js ''blog/post'']"
    by code_simp
  have v: "render demoEnv demoSite JUndefined
     = Inr [(js ''index'', JStr (js ''<html>'')), (js ''blog/post'', JStr (js ''<html>post''))]"
    by code_simp
  from render_skips_ignored[OF m l n r, of JUndefined]
  have "render demoEnv demoSite JUndefined
     = renderPaths demoEnv demoSite JUndefined [js ''index'', js ''blog/post''] []"
    unfolding f by blast
  then show ?thesis using v by blast
qed

subsection \<open>Echo\<close>










lemma foldl_setKey_fresh:
  "distinct (map fst (acc @ ps)) \<Longrightarrow> foldl (\<lambda>acc p. setKey (fst p) (snd p) acc) acc ps = acc @ ps"
proof (induction ps arbitrary: acc)
  case Nil then show ?case by simp
next
  case (Cons p ps)
  have f: "setKey (fst p) (snd p) acc = acc @ [p]" if "fst p \<notin> fst ` set acc" for acc :: "('a \<times> 'b) list"
    using that by (induction acc) auto
  have "fst p \<notin> fst ` set acc" using Cons.prems by auto
  then show ?case using Cons.IH[of "acc @ [p]"] Cons.prems by (simp add: f)
qed





lemma setKey_fresh: "k \<notin> fst ` set ps \<Longrightarrow> setKey k v ps = ps @ [(k, v)]"
  by (induction ps) auto

lemma hasName_named: "lookup x (js ''name'') = JStr n \<Longrightarrow> n \<noteq> [] \<Longrightarrow> hasName (JObj x)"
  by simp















section \<open>Properties of the template compiler\<close>

subsection \<open>The literal round trip\<close>

lemma consChar_Inr: "consChar c (Inr s) = Inr (c # s)"
  by (simp add: consChar_def)

lemma escape_plain: "c \<notin> reSpecialChars \<Longrightarrow>
    evalStringLiteral (c # s) = consChar c (evalStringLiteral s)"
  by (simp add: reSpecialChars_def lineTerminator_def)

lemma escape_special:
  "c \<in> reSpecialChars \<Longrightarrow> evalStringLiteral (escapeSpecialChar c @ s) = consChar c (evalStringLiteral s)"
  by (auto simp: reSpecialChars_def escapeSpecialChar_def specialEscapes_def lineTerminator_def
      singleEscape_def js_def hexDigit_def)

lemma evalStringLiteral_escapeContent: "evalStringLiteral (escapeContent s) = Inr s"
proof (induction s)
  case Nil
  show ?case by (simp add: escapeContent_def)
next
  case (Cons c s)
  have "escapeContent (c # s) = (if c \<in> reSpecialChars then escapeSpecialChar c else [c]) @ escapeContent s"
    by (simp add: escapeContent_def)
  then show ?case
    using Cons escape_plain[of c "escapeContent s"] escape_special[of c "escapeContent s"]
    by (simp add: consChar_Inr del: evalStringLiteral.simps)
qed

lemma run_end: "length code \<le> pc \<Longrightarrow> run h code (pc, state) = Some (Inr (snd state))"
  by (subst run.simps) simp

lemma run_step:
  "pc < length code \<Longrightarrow> runLine h code pc state = Inr (Some pc', state') \<Longrightarrow>
   run h code (pc, state) = run h code (pc', state')"
  by (subst run.simps) simp

lemma runLine_content:
  "pc < length code \<Longrightarrow> code ! pc = AppendContent (escapeContent content) \<Longrightarrow>
   runLine h code pc (ctx, out) = Inr (Some (Suc pc), (ctx, out @ content))"
  by (simp add: runLine_def evalStringLiteral_escapeContent appendOut_def)

subsection \<open>Sources without delimiters\<close>

lemma noDelimiters_Cons:
  "noDelimiters (c # s) \<longleftrightarrow> reExpression (c # s) = None \<and> reStatement (c # s) = None \<and> noDelimiters s"
  by (auto simp: noDelimiters_def)

lemma no_match_empty: "reExpression [] = None" "reStatement [] = None"
  by (simp_all add: reExpression_def reStatement_def matchDelimiter_def js_def)

lemma scan_noDelimiters: "noDelimiters s \<Longrightarrow> scan content s = emitContent (content @ s)"
proof (induction s arbitrary: content)
  case Nil
  show ?case by (subst scan.simps) (simp add: no_match_empty)
next
  case (Cons c s)
  then have "reExpression (c # s) = None" "reStatement (c # s) = None" "noDelimiters s"
    by (simp_all add: noDelimiters_Cons)
  then show ?case using Cons.IH[of "content @ [c]"] by (subst scan.simps) simp
qed

text \<open>
  C5. A source in which neither delimiter pattern matches anywhere compiles to a
  function that returns the source itself, code unit for code unit, for any base context
  and any argument: the content escaped at compile time is what the string literal of
  the compiled code evaluates to.
\<close>

theorem compile_without_delimiters:
  assumes "noDelimiters string"
  shows "compileTemplate h string context data = Some (Inr string)"
proof -
  have code: "scan [] string = emitContent string"
    using scan_noDelimiters[OF assms, of "[]"] by simp
  have "run h (emitContent string) (0, (ctx, [])) = Some (Inr string)" for ctx
  proof (cases "string = []")
    case True
    then show ?thesis by (simp add: emitContent_def run_end)
  next
    case False
    then have c: "emitContent string = [AppendContent (escapeContent string)]"
      by (simp add: emitContent_def)
    have "runLine h (emitContent string) 0 (ctx, []) = Inr (Some (Suc 0), (ctx, [] @ string))"
      by (rule runLine_content) (simp_all add: c)
    then have "run h (emitContent string) (0, (ctx, [])) = run h (emitContent string) (Suc 0, (ctx, [] @ string))"
      by (intro run_step) (simp_all add: c)
    then show ?thesis by (simp add: run_end c)
  qed
  then show ?thesis
    by (simp add: compileTemplate_def code)
qed

theorem compile_without_delimiters_witness:
  "compileTemplate demoEngine ([0x5C, 0x27, 0x0A, 0x0D, 0x2028, 0x2029] @ js ''a { b } < c >'') [] JUndefined
     = Some (Inr ([0x5C, 0x27, 0x0A, 0x0D, 0x2028, 0x2029] @ js ''a { b } < c >''))"
proof -
  have "noDelimiters ([0x5C, 0x27, 0x0A, 0x0D, 0x2028, 0x2029] @ js ''a { b } < c >'')"
    by code_simp
  then show ?thesis by (rule compile_without_delimiters)
qed

subsection \<open>What a delimiter is\<close>

lemma literalAt_sound: "literalAt cl x = Some r \<Longrightarrow> x = cl @ r"
  by (auto simp: literalAt_def prefix_def split: if_splits)

lemma trailingWs_sound: "trailingWs cl s = Some r \<Longrightarrow> \<exists>w. s = w @ cl @ r"
proof (induction s)
  case Nil
  then have "[] = [] @ cl @ r" using literalAt_sound[of cl "[]" r] by simp
  then show ?case by blast
next
  case (Cons c s)
  have lit: "\<exists>w. x = w @ cl @ r" if "literalAt cl x = Some r" for x
    using literalAt_sound[OF that] by (intro exI[of _ "[]"]) simp
  show ?case
  proof (cases "isSpace c \<and> trailingWs cl s \<noteq> None")
    case True
    then have "trailingWs cl s = Some r" using Cons.prems by auto
    then obtain w where "s = w @ cl @ r" using Cons.IH by blast
    then have "c # s = (c # w) @ cl @ r" by simp
    then show ?thesis by blast
  next
    case False
    then have "literalAt cl (c # s) = Some r" using Cons.prems by (auto split: if_splits option.splits)
    then show ?thesis by (rule lit)
  qed
qed

lemma lazyGroup_sound: "lazyGroup cl s = Some (g, r) \<Longrightarrow> g \<noteq> [] \<and> (\<exists>w. s = g @ w @ cl @ r)"
proof (induction s arbitrary: g)
  case Nil
  then show ?case by simp
next
  case (Cons c s)
  show ?case
  proof (cases "trailingWs cl s")
    case (Some r')
    then have "g = [c]" "r' = r" using Cons.prems by auto
    then show ?thesis using trailingWs_sound[OF Some] by auto
  next
    case None
    then obtain g' where g': "lazyGroup cl s = Some (g', r)" "g = c # g'"
      using Cons.prems by (auto split: option.splits)
    then show ?thesis using Cons.IH[OF g'(1)] by auto
  qed
qed

lemma leadingWs_sound: "leadingWs cl s = Some (g, r) \<Longrightarrow> \<exists>a. a \<noteq> [] \<and> s = a @ cl @ r"
proof (induction s)
  case Nil
  then show ?case by simp
next
  case (Cons c s)
  have lg: "\<exists>a. a \<noteq> [] \<and> x = a @ cl @ r" if "lazyGroup cl x = Some (g, r)" for x
  proof -
    from lazyGroup_sound[OF that] obtain w where "g \<noteq> []" "x = g @ w @ cl @ r" by blast
    then have "g @ w \<noteq> [] \<and> x = (g @ w) @ cl @ r" by simp
    then show ?thesis by blast
  qed
  show ?case
  proof (cases "isSpace c \<and> leadingWs cl s \<noteq> None")
    case True
    then have "leadingWs cl s = Some (g, r)" using Cons.prems by auto
    then obtain a where "a \<noteq> []" "s = a @ cl @ r" using Cons.IH by blast
    then have "c # a \<noteq> [] \<and> c # s = (c # a) @ cl @ r" by simp
    then show ?thesis by blast
  next
    case False
    then have "lazyGroup cl (c # s) = Some (g, r)"
      using Cons.prems by (auto split: if_splits option.splits simp del: lazyGroup.simps)
    then show ?thesis by (rule lg)
  qed
qed

lemma matchDelimiter_sound:
  "matchDelimiter opn cl s = Some (g, r) \<Longrightarrow> \<exists>a. a \<noteq> [] \<and> s = opn @ a @ cl @ r"
  by (auto simp: matchDelimiter_def prefix_def split: if_splits dest!: leadingWs_sound)

lemma trailingWs_complete:
  assumes "cl \<noteq> []" "\<not> isSpace (hd cl)"
  shows "trailingWs cl (cl @ r) = Some r"
  using assms by (cases cl) (auto simp: literalAt_def)

lemma lazyGroup_complete:
  assumes "cl \<noteq> []" "\<not> isSpace (hd cl)" "a \<noteq> []"
  shows "lazyGroup cl (a @ cl @ r) \<noteq> None"
  using assms(3)
proof (induction a)
  case Nil
  then show ?case by simp
next
  case (Cons c a)
  show ?case
  proof (cases "a = []")
    case True
    then show ?thesis using trailingWs_complete[OF assms(1,2), of r] by simp
  next
    case False
    then show ?thesis using Cons.IH by (auto split: option.splits)
  qed
qed

lemma leadingWs_complete: "lazyGroup cl s \<noteq> None \<Longrightarrow> leadingWs cl s \<noteq> None"
  by (cases s) (auto split: option.splits simp del: lazyGroup.simps)

lemma matchDelimiter_complete:
  assumes "cl \<noteq> []" "\<not> isSpace (hd cl)" "a \<noteq> []"
  shows "matchDelimiter opn cl (opn @ a @ cl @ r) \<noteq> None"
  using leadingWs_complete[OF lazyGroup_complete[OF assms, of r]]
  by (simp add: matchDelimiter_def)

lemma matchDelimiter_iff:
  assumes "cl \<noteq> []" "\<not> isSpace (hd cl)"
  shows "matchDelimiter opn cl s \<noteq> None \<longleftrightarrow> (\<exists>a r. a \<noteq> [] \<and> s = opn @ a @ cl @ r)"
proof
  assume "matchDelimiter opn cl s \<noteq> None"
  then obtain g r where "matchDelimiter opn cl s = Some (g, r)" by auto
  from matchDelimiter_sound[OF this] show "\<exists>a r. a \<noteq> [] \<and> s = opn @ a @ cl @ r" by blast
next
  assume "\<exists>a r. a \<noteq> [] \<and> s = opn @ a @ cl @ r"
  then obtain a r where "a \<noteq> []" "s = opn @ a @ cl @ r" by blast
  then show "matchDelimiter opn cl s \<noteq> None"
    using matchDelimiter_complete[OF assms, of a opn r] by simp
qed

lemma noDelimiters_iff:
  "noDelimiters s \<longleftrightarrow>
     \<not> (\<exists>p a r. a \<noteq> [] \<and> (s = p @ js ''{{'' @ a @ js ''}}'' @ r \<or> s = p @ js ''<<'' @ a @ js ''>>'' @ r))"
proof -
  have e: "reExpression t \<noteq> None \<longleftrightarrow> (\<exists>a r. a \<noteq> [] \<and> t = js ''{{'' @ a @ js ''}}'' @ r)" for t
    unfolding reExpression_def by (rule matchDelimiter_iff) (simp_all add: js_def isSpace_def)
  have st: "reStatement t \<noteq> None \<longleftrightarrow> (\<exists>a r. a \<noteq> [] \<and> t = js ''<<'' @ a @ js ''>>'' @ r)" for t
    unfolding reStatement_def by (rule matchDelimiter_iff) (simp_all add: js_def isSpace_def)
  have e': "reExpression t = None \<longleftrightarrow> \<not> (\<exists>a r. a \<noteq> [] \<and> t = js ''{{'' @ a @ js ''}}'' @ r)" for t
    using e[of t] by blast
  have st': "reStatement t = None \<longleftrightarrow> \<not> (\<exists>a r. a \<noteq> [] \<and> t = js ''<<'' @ a @ js ''>>'' @ r)" for t
    using st[of t] by blast
  have "noDelimiters s \<longleftrightarrow> (\<forall>p t. s = p @ t \<longrightarrow> reExpression t = None \<and> reStatement t = None)"
    unfolding noDelimiters_def list_all_iff by (auto simp: suffix_def)
  also have "\<dots> \<longleftrightarrow> \<not> (\<exists>p a r. a \<noteq> [] \<and> (s = p @ js ''{{'' @ a @ js ''}}'' @ r \<or> s = p @ js ''<<'' @ a @ js ''>>'' @ r))"
    unfolding e' st' by blast
  finally show ?thesis .
qed


subsection \<open>Value delimiters\<close>





end
